theory Spec2Isabelle
  imports Complex_Main
begin

section \<open>Python library functions used by gdal\_warper.py\<close>

text \<open>
  Strings are lists of 8-bit characters. \<open>isspace\<close> is \<open>str.isspace\<close> on the code points
  below 256: TAB..CR, FS..US, SPACE, NEL and NBSP.
\<close>

definition isspace :: "char \<Rightarrow> bool" where
  "isspace c = (of_char c \<in> {9, 10, 11, 12, 13, 28, 29, 30, 31, 32, 133, 160 :: nat})"

text \<open>
  \<open>s.split()\<close> with no argument: runs of whitespace separate the tokens, and leading and
  trailing whitespace produce no empty token. \<open>split_from cur s\<close> scans \<open>s\<close> with the
  token read so far in \<open>cur\<close>.
\<close>

fun split_from :: "string \<Rightarrow> string \<Rightarrow> string list" where
  "split_from cur [] = (if cur = [] then [] else [cur])"
| "split_from cur (c # cs) =
     (if isspace c then (if cur = [] then split_from [] cs else cur # split_from [] cs)
      else split_from (cur @ [c]) cs)"

definition split :: "string \<Rightarrow> string list" where
  "split s = split_from [] s"

text \<open>
  \<open>os.path.basename\<close> (posixpath): everything after the last slash.
  \<open>os.path.join\<close> of two components (posixpath): an absolute second component replaces
  the first; otherwise one slash separates them unless the first is empty or ends in one.
\<close>

definition basename :: "string \<Rightarrow> string" where
  "basename p = rev (takeWhile (\<lambda>c. c \<noteq> CHR ''/'') (rev p))"

definition path_join :: "string \<Rightarrow> string \<Rightarrow> string" where
  "path_join a b =
     (if take 1 b = ''/'' then b
      else if a = [] \<or> take 1 (rev a) = ''/'' then a @ b
      else a @ ''/'' @ b)"

text \<open>\<open>str(x)\<close> of a Python int: decimal digits, with a minus sign when negative.\<close>

fun digits :: "nat \<Rightarrow> string" where
  "digits n = (if n < 10 then [''0123456789'' ! n] else digits (n div 10) @ [''0123456789'' ! (n mod 10)])"

declare digits.simps [simp del]

definition str_int :: "int \<Rightarrow> string" where
  "str_int i = (if i < 0 then CHR ''-'' # digits (nat (- i)) else digits (nat i))"

section \<open>Exceptions and the external processes\<close>

datatype exn = KeyError | IndexError | UnboundLocalError | TypeError | UnicodeDecodeError | OSError

text \<open>
  What \<open>subprocess.run(cmd, stdout=PIPE, stderr=PIPE)\<close> can do with a non-empty argument
  vector: raise \<open>FileNotFoundError\<close>, raise another \<open>OSError\<close> (a permission error, for
  one), or return a completed process. \<open>Exited rc err el\<close> carries the return code, the
  result of \<open>process.stderr.decode('utf-8')\<close> (\<open>None\<close> when the bytes are not valid UTF-8,
  the call then raises \<open>UnicodeDecodeError\<close>) and the \<open>%.1f\<close> rendering of the elapsed
  seconds. With an empty argument vector \<open>subprocess.run\<close> raises \<open>IndexError\<close>.

  The operating system is a parameter: a function from the commands run so far and the
  command to run to the outcome. The list of commands run so far is the state that the
  functions below pass along.
\<close>

datatype proc_outcome = NotFound | SpawnError | Exited int "string option" string

type_synonym trace = "string list list"
type_synonym opsys = "trace \<Rightarrow> string list \<Rightarrow> proc_outcome"

definition run_cmd :: "opsys \<Rightarrow> string list \<Rightarrow> trace \<Rightarrow> (exn + bool \<times> string) \<times> trace" where
  "run_cmd os cmd w =
     (case cmd of
        [] \<Rightarrow> (Inl IndexError, w)
      | prog # args \<Rightarrow>
          (case os w cmd of
             NotFound \<Rightarrow> (Inr (False, ''Command '' @ [CHR 0x27] @ prog @ [CHR 0x27] @ '' not found''), w @ [cmd])
           | SpawnError \<Rightarrow> (Inl OSError, w @ [cmd])
           | Exited returncode err elapsed \<Rightarrow>
               if returncode \<noteq> 0 then
                 (case err of
                    None \<Rightarrow> (Inl UnicodeDecodeError, w @ [cmd])
                  | Some txt \<Rightarrow> (Inr (False, txt), w @ [cmd]))
               else (Inr (True, ''File reprojected in '' @ elapsed @ '' seconds.''), w @ [cmd])))"

section \<open>The reprojection command\<close>

text \<open>
  The option mapping of one projection is a Python dict, iterated in insertion order: an
  association list. The loop of \<open>_get_warp_command\<close> visits each key once with its value,
  which is a list of strings or a single string.
\<close>

datatype opt_value = OptList "string list" | OptStr string

type_synonym warp_opts = "(string \<times> opt_value) list"

text \<open>The inner loop \<open>for itm in config[opt]: opts += ['-' + opt, itm]\<close>.\<close>

fun list_opts :: "string \<Rightarrow> string list \<Rightarrow> string list \<Rightarrow> string list" where
  "list_opts opt [] opts = opts"
| "list_opts opt (itm # rest) opts = list_opts opt rest (opts @ [CHR ''-'' # opt, itm])"

text \<open>The outer loop \<open>for opt in config\<close>, with the command built so far.\<close>

fun warp_opts_loop :: "warp_opts \<Rightarrow> string list \<Rightarrow> string list" where
  "warp_opts_loop [] cmd = cmd"
| "warp_opts_loop ((opt, OptList itms) # rest) cmd = warp_opts_loop rest (cmd @ list_opts opt itms [])"
| "warp_opts_loop ((opt, OptStr s) # rest) cmd = warp_opts_loop rest (cmd @ [CHR ''-'' # opt] @ split s)"

definition get_warp_command :: "warp_opts \<Rightarrow> string \<Rightarrow> string \<Rightarrow> string list" where
  "get_warp_command config fname_in fname_out =
     warp_opts_loop config [''gdalwarp''] @ [fname_in, fname_out]"

definition warp :: "opsys \<Rightarrow> string \<Rightarrow> string \<Rightarrow> warp_opts \<Rightarrow> trace \<Rightarrow> (exn + string option) \<times> trace" where
  "warp os fname_in target_dir config w =
     (let fname = basename fname_in;
          fname_out = path_join target_dir fname;
          cmd = get_warp_command config fname_in fname_out
      in case run_cmd os cmd w of
           (Inl e, w') \<Rightarrow> (Inl e, w')
         | (Inr (success, msg), w') \<Rightarrow> (if success then (Inr (Some fname_out), w') else (Inr None, w')))"

text \<open>
  The expansion of one option as the specification words it: a list-valued option gives one
  \<open>-option value\<close> pair per element, in list order; a string-valued option gives the
  dash-prefixed option once, followed by the whitespace-separated tokens of the string.
\<close>

fun expand_option :: "string \<times> opt_value \<Rightarrow> string list" where
  "expand_option (opt, OptList itms) = concat (map (\<lambda>itm. [CHR ''-'' # opt, itm]) itms)"
| "expand_option (opt, OptStr s) = (CHR ''-'' # opt) # split s"

section \<open>Configuration, payloads and messages\<close>

text \<open>
  The configuration is the dict read from the YAML file; the record keeps the keys that the
  code reads. A field that is \<open>None\<close> is an absent key: \<open>config[key]\<close> raises
  \<open>KeyError\<close> and \<open>config.get(key)\<close> gives \<open>None\<close>. \<open>cfg_projections\<close> holds the
  top-level keys whose values are option mappings: \<open>config[config["target_projection"]]\<close>
  looks the projection name up there. \<open>cfg_restart_timeout\<close> is a number of minutes.
\<close>

record config =
  cfg_target_dir :: "string option"
  cfg_target_projection :: "string option"
  cfg_projections :: "(string \<times> warp_opts) list"
  cfg_overviews :: "int list option"
  cfg_restart_timeout :: "rat option"

text \<open>
  A message payload is a dict from field names to values. \<open>_process_message\<close> copies the
  payload and assigns to fields of the copy, so dicts live in a store: \<open>cells\<close> maps every
  address to its dict, and the addresses below \<open>top\<close> are the allocated ones.
\<close>

type_synonym payload = "string \<rightharpoonup> string"
type_synonym addr = nat

record heap =
  cells :: "addr \<Rightarrow> payload"
  top :: addr

definition dict_copy :: "heap \<Rightarrow> addr \<Rightarrow> addr \<times> heap" where
  "dict_copy h a = (top h, h\<lparr>cells := (cells h)(top h := cells h a), top := Suc (top h)\<rparr>)"

definition dict_set :: "heap \<Rightarrow> addr \<Rightarrow> string \<Rightarrow> string \<Rightarrow> heap" where
  "dict_set h a k v = h\<lparr>cells := (cells h)(a := (cells h a)(k \<mapsto> v))\<rparr>"

text \<open>
  A posttroll \<open>Message(subject, type, data)\<close>. Inside the worker \<open>mdata\<close> is the address of
  the dict; once the result has been pickled back to the main process it is the dict.
\<close>

record 'd message =
  subject :: string
  mtype :: string
  mdata :: 'd

section \<open>Processing one message\<close>

definition add_overviews :: "opsys \<Rightarrow> string \<Rightarrow> int list option \<Rightarrow> trace \<Rightarrow> (exn + bool) \<times> trace" where
  "add_overviews os fname ovs w =
     (case ovs of
        None \<Rightarrow> (Inr True, w)
      | Some [] \<Rightarrow> (Inr True, w)
      | Some (x # xs) \<Rightarrow>
          (case run_cmd os ([''gdaladdo'', fname] @ map str_int (x # xs)) w of
             (Inl e, w') \<Rightarrow> (Inl e, w')
           | (Inr (success, msg), w') \<Rightarrow> (if success then (Inr True, w') else (Inr False, w'))))"

definition process_message ::
  "opsys \<Rightarrow> config \<Rightarrow> addr \<Rightarrow> string \<Rightarrow> heap \<times> trace \<Rightarrow> (exn + addr message option) \<times> heap \<times> trace" where
  "process_message os config msg_data pub_topic st =
     (let ovs = cfg_overviews config;
          (meta, h) = dict_copy (fst st) msg_data;
          w = snd st
      in case cells h meta ''uri'' of
           None \<Rightarrow> (Inl KeyError, h, w)
         | Some uri \<Rightarrow>
        (case cfg_target_dir config of
           None \<Rightarrow> (Inl KeyError, h, w)
         | Some dir \<Rightarrow>
        (case cfg_target_projection config of
           None \<Rightarrow> (Inl KeyError, h, w)
         | Some proj \<Rightarrow>
        (case map_of (cfg_projections config) proj of
           None \<Rightarrow> (Inl KeyError, h, w)
         | Some opts \<Rightarrow>
        (case warp os uri dir opts w of
           (Inl e, w1) \<Rightarrow> (Inl e, h, w1)
         | (Inr None, w1) \<Rightarrow> (Inr None, h, w1)
         | (Inr (Some new_uri), w1) \<Rightarrow>
        (case add_overviews os new_uri ovs w1 of
           (Inl e, w2) \<Rightarrow> (Inl e, h, w2)
         | (Inr ok, w2) \<Rightarrow>
             if \<not> ok then (Inr None, h, w2)
             else (Inr (Some \<lparr>subject = pub_topic, mtype = ''file'', mdata = meta\<rparr>),
                   dict_set (dict_set h meta ''uri'' new_uri) meta ''uid'' (basename new_uri),
                   w2)))))))"

definition process_message_worker ::
  "opsys \<Rightarrow> config \<Rightarrow> addr \<Rightarrow> string \<Rightarrow> heap \<times> trace \<Rightarrow> (exn + addr \<times> addr message option) \<times> heap \<times> trace" where
  "process_message_worker os config msg_data pub_topic st =
     (case process_message os config msg_data pub_topic st of
        (Inl e, st') \<Rightarrow> (Inl e, st')
      | (Inr pub_msg, st') \<Rightarrow> (Inr (msg_data, pub_msg), st'))"

text \<open>
  One task of the pool: the arguments are unpickled into the worker process (the payload
  is its only dict, at address 0), the worker function runs, and the pair it returns is
  pickled back: each address is replaced by the dict it holds at that moment.
\<close>

type_synonym result = "payload \<times> payload message option"

definition run_task :: "opsys \<Rightarrow> config \<Rightarrow> string \<Rightarrow> payload \<Rightarrow> trace \<Rightarrow> (exn + result) \<times> trace" where
  "run_task os config pub_topic data w =
     (case process_message_worker os config 0 pub_topic (\<lparr>cells = (\<lambda>a. Map.empty)(0 := data), top = 1\<rparr>, w) of
        (Inl e, h, w') \<Rightarrow> (Inl e, w')
      | (Inr (a, pub_msg), h, w') \<Rightarrow>
          (Inr (cells h a,
                map_option (\<lambda>m. \<lparr>subject = subject m, mtype = mtype m, mdata = cells h (mdata m)\<rparr>) pub_msg),
           w'))"

text \<open>
  \<open>_publish_message\<close>: the publisher is the list of messages sent so far. The two
  \<open>['uri']\<close> lookups are the arguments of the log call after \<open>pub.send\<close>.
\<close>

definition publish_message ::
  "payload message list \<Rightarrow> payload \<Rightarrow> payload message option \<Rightarrow> (exn + unit) \<times> payload message list" where
  "publish_message pub msg_data pub_msg =
     (case pub_msg of
        None \<Rightarrow> (Inr (), pub)
      | Some m \<Rightarrow>
          (case msg_data ''uri'' of
             None \<Rightarrow> (Inl KeyError, pub @ [m])
           | Some u \<Rightarrow>
               (case mdata m ''uri'' of
                  None \<Rightarrow> (Inl KeyError, pub @ [m])
                | Some u' \<Rightarrow> (Inr (), pub @ [m]))))"

section \<open>The event loop\<close>

text \<open>
  The state of one call of \<open>_warper_loop\<close>. The first five fields are its local
  variables (\<open>time_since_last_msg\<close> is \<open>None\<close> while the variable is unbound; times are
  microseconds since the epoch). \<open>sent\<close> is the publisher, \<open>pending\<close> the tasks handed to
  the pool whose worker has not finished, \<open>invoked\<close> the commands the workers have run.
  \<open>submitted\<close> and \<open>drained\<close> are history: every payload handed to \<open>apply_async\<close> and
  every result popped from \<open>results\<close> during this call.
\<close>

record loop_state =
  results :: "result list"
  queued_images :: int
  latest_message_time :: int
  time_since_last_msg :: "rat option"
  keep_looping :: bool
  sent :: "payload message list"
  pending :: "payload list"
  invoked :: trace
  submitted :: "payload list"
  drained :: "result list"

text \<open>
  What happens around one iteration of \<open>for msg in sub.recv(1)\<close>: whether SIGTERM arrived
  since the previous iteration, which pending tasks finished since then (positions in
  \<open>pending\<close>, in finishing order), the received message (\<open>None\<close> for a tick without
  message) and the two readings of the clock (lines 129 and 141).
\<close>

record event =
  ev_sigterm :: bool
  ev_finished :: "nat list"
  ev_msg :: "payload option"
  ev_now_check :: int
  ev_now_recv :: int

text \<open>
  A finished task leaves the pool; when its worker returned, the callback appends the
  result to \<open>results\<close>; when the worker raised, no callback runs.
\<close>

fun pool_finish :: "opsys \<Rightarrow> config \<Rightarrow> string \<Rightarrow> nat list \<Rightarrow> loop_state \<Rightarrow> loop_state" where
  "pool_finish os config pub_topic [] s = s"
| "pool_finish os config pub_topic (i # rest) s =
     (if i < length (pending s) then
        (case run_task os config pub_topic (pending s ! i) (invoked s) of
           (Inl e, w) \<Rightarrow>
             pool_finish os config pub_topic rest
               (s\<lparr>pending := take i (pending s) @ drop (Suc i) (pending s), invoked := w\<rparr>)
         | (Inr r, w) \<Rightarrow>
             pool_finish os config pub_topic rest
               (s\<lparr>pending := take i (pending s) @ drop (Suc i) (pending s), invoked := w,
                  results := results s @ [r]\<rparr>))
      else pool_finish os config pub_topic rest s)"

definition deliver :: "opsys \<Rightarrow> config \<Rightarrow> string \<Rightarrow> event \<Rightarrow> loop_state \<Rightarrow> loop_state" where
  "deliver os config pub_topic ev s =
     pool_finish os config pub_topic (ev_finished ev)
       (if ev_sigterm ev then s\<lparr>keep_looping := False\<rparr> else s)"

text \<open>The drain loop \<open>while results: ...\<close> (lines 124 to 127).\<close>

function drain :: "loop_state \<Rightarrow> (exn + unit) \<times> loop_state" where
  "drain s =
     (case results s of
        [] \<Rightarrow> (Inr (), s)
      | (msg_data, pub_msg) # rest \<Rightarrow>
          (case publish_message (sent s) msg_data pub_msg of
             (Inl e, p) \<Rightarrow>
               (Inl e, s\<lparr>results := rest, sent := p, drained := drained s @ [(msg_data, pub_msg)]\<rparr>)
           | (Inr u, p) \<Rightarrow>
               drain (s\<lparr>results := rest, sent := p, drained := drained s @ [(msg_data, pub_msg)],
                        queued_images := queued_images s - 1\<rparr>)))"
  by pat_completeness auto
termination
  by (relation "measure (\<lambda>s. length (results s))") auto

declare drain.simps [simp del]

text \<open>\<open>if restart_timeout:\<close> on a number or \<open>None\<close>.\<close>

definition truthy :: "rat option \<Rightarrow> bool" where
  "truthy T = (case T of None \<Rightarrow> False | Some t \<Rightarrow> t \<noteq> 0)"

text \<open>\<open>(t1 - t0).total_seconds() / 60.\<close>, in exact arithmetic.\<close>

definition minutes_between :: "int \<Rightarrow> int \<Rightarrow> rat" where
  "minutes_between t0 t1 = of_int (t1 - t0) / 1000000 / 60"

datatype retval = RetNone | RetSIGTERM

datatype outcome = Continue loop_state | Return retval loop_state | Raise exn loop_state

text \<open>Lines 128 to 130: the elapsed time is computed only under \<open>if restart_timeout:\<close>.\<close>

definition measure_idle :: "config \<Rightarrow> event \<Rightarrow> loop_state \<Rightarrow> loop_state" where
  "measure_idle config ev s =
     (if truthy (cfg_restart_timeout config)
      then s\<lparr>time_since_last_msg := Some (minutes_between (latest_message_time s) (ev_now_check ev))\<rparr>
      else s)"

text \<open>
  Lines 131 to 137: the exits of the loop, \<open>None\<close> when the iteration goes on. Reading the
  unbound \<open>time_since_last_msg\<close> raises \<open>UnboundLocalError\<close>; comparing a number with
  \<open>None\<close> raises \<open>TypeError\<close>.
\<close>

definition check_exit :: "config \<Rightarrow> loop_state \<Rightarrow> outcome option" where
  "check_exit config s =
     (if queued_images s = 0 then
        (if \<not> keep_looping s then Some (Return RetSIGTERM s)
         else (case time_since_last_msg s of
                 None \<Rightarrow> Some (Raise UnboundLocalError s)
               | Some t \<Rightarrow>
                   (case cfg_restart_timeout config of
                      None \<Rightarrow> Some (Raise TypeError s)
                    | Some T \<Rightarrow> if t > T then Some (Return RetNone s) else None)))
      else None)"

text \<open>Lines 138 to 147: a tick is skipped, a message is handed to the pool.\<close>

definition dispatch :: "event \<Rightarrow> loop_state \<Rightarrow> loop_state" where
  "dispatch ev s =
     (case ev_msg ev of
        None \<Rightarrow> s
      | Some data \<Rightarrow>
          s\<lparr>latest_message_time := ev_now_recv ev,
            pending := pending s @ [data],
            submitted := submitted s @ [data],
            queued_images := queued_images s + 1\<rparr>)"

definition loop_body :: "opsys \<Rightarrow> config \<Rightarrow> string \<Rightarrow> event \<Rightarrow> loop_state \<Rightarrow> outcome" where
  "loop_body os config pub_topic ev s =
     (case drain (deliver os config pub_topic ev s) of
        (Inl e, s1) \<Rightarrow> Raise e s1
      | (Inr u, s1) \<Rightarrow>
          (case check_exit config (measure_idle config ev s1) of
             Some out \<Rightarrow> out
           | None \<Rightarrow> Continue (dispatch ev (measure_idle config ev s1))))"

text \<open>
  The loop over the events received so far. \<open>Continue\<close> at the end of the list is the
  loop waiting in \<open>sub.recv\<close> for the next event.
\<close>

fun warper_events :: "opsys \<Rightarrow> config \<Rightarrow> string \<Rightarrow> event list \<Rightarrow> loop_state \<Rightarrow> outcome" where
  "warper_events os config pub_topic [] s = Continue s"
| "warper_events os config pub_topic (ev # evs) s =
     (case loop_body os config pub_topic ev s of
        Continue s' \<Rightarrow> warper_events os config pub_topic evs s'
      | Return r s' \<Rightarrow> Return r s'
      | Raise e s' \<Rightarrow> Raise e s')"

text \<open>
  The local variables of a new call of \<open>_warper_loop\<close> at clock reading \<open>now\<close>; the
  publisher, the pool and the commands run so far are those of the process.
\<close>

definition enter_loop :: "int \<Rightarrow> loop_state \<Rightarrow> loop_state" where
  "enter_loop now s =
     s\<lparr>results := [], queued_images := 0, latest_message_time := now,
       time_since_last_msg := None, keep_looping := True, submitted := [], drained := []\<rparr>"

definition process_start :: loop_state where
  "process_start =
     \<lparr>results = [], queued_images = 0, latest_message_time = 0, time_since_last_msg = None,
      keep_looping = True, sent = [], pending = [], invoked = [], submitted = [], drained = []\<rparr>"

definition warper_loop :: "opsys \<Rightarrow> config \<Rightarrow> string \<Rightarrow> int \<Rightarrow> event list \<Rightarrow> loop_state \<Rightarrow> outcome" where
  "warper_loop os config pub_topic now evs s = warper_events os config pub_topic evs (enter_loop now s)"

text \<open>
  The loop of \<open>main\<close>: each call of \<open>_warper_loop\<close> has its own subscription, so the input
  is one clock reading and one list of events per call. \<open>Running\<close> is the process still
  inside a call (or about to make the next one) when the input ends.
\<close>

datatype main_result = Stopped loop_state | Running loop_state | Crashed exn loop_state

fun main_loop :: "opsys \<Rightarrow> config \<Rightarrow> string \<Rightarrow> (int \<times> event list) list \<Rightarrow> loop_state \<Rightarrow> main_result" where
  "main_loop os config pub_topic [] s = Running s"
| "main_loop os config pub_topic ((now, evs) # calls) s =
     (case warper_loop os config pub_topic now evs s of
        Return ret s' \<Rightarrow> (if ret = RetSIGTERM then Stopped s' else main_loop os config pub_topic calls s')
      | Continue s' \<Rightarrow> Running s'
      | Raise e s' \<Rightarrow> Crashed e s')"

text \<open>The state that an outcome of the loop carries.\<close>

fun state_of :: "outcome \<Rightarrow> loop_state" where
  "state_of (Continue s) = s"
| "state_of (Return r s) = s"
| "state_of (Raise e s) = s"

text \<open>
  A result that \<open>_publish_message\<close> handles without raising: when it carries a message,
  the payload and the message both have a \<open>uri\<close> field.
\<close>

definition wf_result :: "result \<Rightarrow> bool" where
  "wf_result r =
     (case snd r of
        None \<Rightarrow> True
      | Some m \<Rightarrow> fst r ''uri'' \<noteq> None \<and> mdata m ''uri'' \<noteq> None)"

text \<open>The state that a result of \<open>main\<close> carries.\<close>

fun main_state :: "main_result \<Rightarrow> loop_state" where
  "main_state (Stopped s) = s"
| "main_state (Running s) = s"
| "main_state (Crashed e s) = s"

text \<open>The value a call of the loop returned, and the exception it raised, if any.\<close>

fun returned :: "outcome \<Rightarrow> retval option" where
  "returned (Return r s) = Some r"
| "returned (Continue s) = None"
| "returned (Raise e s) = None"

fun raised :: "outcome \<Rightarrow> exn option" where
  "raised (Raise e s) = Some e"
| "raised (Continue s) = None"
| "raised (Return r s) = None"

text \<open>
  The time from which idleness counts, in words: the clock reading of the most recent
  event with a payload among the events that the current call of the loop has received,
  or the time at which the call was entered when there is none.
\<close>

fun last_real_event_time :: "int \<Rightarrow> event list \<Rightarrow> int" where
  "last_real_event_time entered [] = entered"
| "last_real_event_time entered (ev # evs) =
     last_real_event_time (case ev_msg ev of None \<Rightarrow> entered | Some d \<Rightarrow> ev_now_recv ev) evs"

text \<open>
  The invariant of the loop: the counter is the number of submissions minus the number of
  drained results; the drained results, the buffered results and the pending tasks are
  together no more than the submissions; every buffered result is well formed.
\<close>

definition loop_inv :: "loop_state \<Rightarrow> bool" where
  "loop_inv s =
     (queued_images s = int (length (submitted s)) - int (length (drained s))
      \<and> length (drained s) + length (results s) + length (pending s) \<le> length (submitted s)
      \<and> list_all wf_result (results s))"

section \<open>The scenarios of the specification as inputs\<close>

definition scenario_config :: config where
  "scenario_config =
     \<lparr>cfg_target_dir = Some ''/out'', cfg_target_projection = Some ''geos'',
      cfg_projections = [(''geos'', [(''t_srs'', OptStr ''EPSG:4326'')])],
      cfg_overviews = Some [2, 4, 8], cfg_restart_timeout = Some 5\<rparr>"

definition scenario_payload :: payload where
  "scenario_payload = [''uri'' \<mapsto> ''/in/a.tif'', ''sensor'' \<mapsto> ''seviri'']"

definition scenario_heap :: heap where
  "scenario_heap = \<lparr>cells = (\<lambda>a. Map.empty)(0 := scenario_payload), top = 1\<rparr>"

text \<open>Every command exits with code 0.\<close>

definition os_ok :: opsys where
  "os_ok w cmd = Exited 0 (Some []) ''0.1''"

text \<open>Scenario B: the reprojection tool exits with code 1 and writes to standard error.\<close>

definition os_bad_projection :: opsys where
  "os_bad_projection w cmd =
     (if take 1 cmd = [''gdalwarp''] then Exited 1 (Some ''bad projection'') ''0.1''
      else Exited 0 (Some []) ''0.1'')"

definition tick :: "int \<Rightarrow> event" where
  "tick now = \<lparr>ev_sigterm = False, ev_finished = [], ev_msg = None, ev_now_check = now, ev_now_recv = now\<rparr>"

definition recv :: "payload \<Rightarrow> int \<Rightarrow> event" where
  "recv data now = \<lparr>ev_sigterm = False, ev_finished = [], ev_msg = Some data, ev_now_check = now, ev_now_recv = now\<rparr>"

definition sigterm_tick :: "int \<Rightarrow> event" where
  "sigterm_tick now = \<lparr>ev_sigterm = True, ev_finished = [], ev_msg = None, ev_now_check = now, ev_now_recv = now\<rparr>"

definition finish_tick :: "nat list \<Rightarrow> int \<Rightarrow> event" where
  "finish_tick idxs now = \<lparr>ev_sigterm = False, ev_finished = idxs, ev_msg = None, ev_now_check = now, ev_now_recv = now\<rparr>"

text \<open>A loop that started at time 0 and has handed one message to the pool.\<close>

definition one_outstanding :: loop_state where
  "one_outstanding = dispatch (recv scenario_payload 10) (enter_loop 0 process_start)"

text \<open>A loop with two results in its buffer, one of them without message.\<close>

definition two_results :: loop_state where
  "two_results =
     process_start\<lparr>results :=
       [(scenario_payload, None),
        (scenario_payload, Some \<lparr>subject = ''/warped'', mtype = ''file'', mdata = scenario_payload\<rparr>)],
       queued_images := 2, submitted := [scenario_payload, scenario_payload]\<rparr>"

text \<open>
  Two calls of the loop with a timeout of 5 minutes. The first is entered at time 0,
  receives a message at 10 microseconds, sees its task finish, and gets a tick at 6
  minutes. The second is entered at 6 minutes and gets ticks at 7 and at 10 minutes.
\<close>

definition first_call :: outcome where
  "first_call =
     warper_loop os_ok scenario_config ''/warped'' 0
       [recv scenario_payload 10, finish_tick [0] 20, tick 360000000] process_start"

definition second_call :: outcome where
  "second_call =
     warper_loop os_ok scenario_config ''/warped'' 360000000
       [tick 420000000, tick 600000000] (state_of first_call)"

text \<open>A loop that received a message at 10 microseconds and has drained its result.\<close>

definition served_once :: loop_state where
  "served_once =
     state_of (warper_loop os_ok scenario_config ''/warped'' 0
       [recv scenario_payload 10, finish_tick [0] 20] process_start)"

section \<open>Facts about the library functions\<close>

lemma split_from_concat: "concat (split_from cur s) = cur @ filter (\<lambda>c. \<not> isspace c) s"
  by (induction s arbitrary: cur) auto

lemma split_from_tokens:
  "list_all (\<lambda>c. \<not> isspace c) cur \<Longrightarrow>
   list_all (\<lambda>t. t \<noteq> [] \<and> list_all (\<lambda>c. \<not> isspace c) t) (split_from cur s)"
  by (induction s arbitrary: cur) auto

lemma split_concat: "concat (split s) = filter (\<lambda>c. \<not> isspace c) s"
  by (simp add: split_def split_from_concat)

lemma split_tokens: "list_all (\<lambda>t. t \<noteq> [] \<and> list_all (\<lambda>c. \<not> isspace c) t) (split s)"
  by (simp add: split_def split_from_tokens)

lemma basename_no_slash: "CHR ''/'' \<notin> set (basename p)"
proof -
  have "\<forall>c \<in> set (takeWhile (\<lambda>c. c \<noteq> CHR ''/'') (rev p)). c \<noteq> CHR ''/''"
    by (auto dest: set_takeWhileD)
  then show ?thesis by (auto simp: basename_def)
qed

lemma basename_append_slash:
  "CHR ''/'' \<notin> set b \<Longrightarrow> basename (xs @ ''/'' @ b) = b"
proof -
  assume "CHR ''/'' \<notin> set b"
  then have "takeWhile (\<lambda>c. c \<noteq> CHR ''/'') (rev b @ CHR ''/'' # rev xs) = rev b"
    by (auto simp: takeWhile_tail takeWhile_eq_all_conv)
  then show ?thesis by (simp add: basename_def)
qed

lemma basename_plain:
  assumes "CHR ''/'' \<notin> set b"
  shows "basename b = b"
proof -
  from assms have h: "takeWhile (\<lambda>c. c \<noteq> CHR ''/'') (rev b) = rev b"
    by (auto simp: takeWhile_eq_all_conv)
  show ?thesis unfolding basename_def h by (rule rev_rev_ident)
qed

lemma basename_path_join: "basename (path_join dir (basename p)) = basename p"
proof -
  let ?b = "basename p"
  have ns: "CHR ''/'' \<notin> set ?b" by (rule basename_no_slash)
  then have nostart: "take 1 ?b \<noteq> ''/''" by (cases ?b) auto
  show ?thesis
  proof (cases "dir = []")
    case True
    with nostart ns show ?thesis by (simp add: path_join_def basename_plain)
  next
    case False
    show ?thesis
    proof (cases "take 1 (rev dir) = ''/''")
      case True
      then obtain ys where "rev dir = CHR ''/'' # ys" by (cases "rev dir") auto
      then have "dir = rev ys @ ''/''" by (metis rev.simps(2) rev_rev_ident)
      with True nostart ns show ?thesis
        using basename_append_slash [of ?b "rev ys"] by (simp add: path_join_def)
    next
      case F2: False
      with False nostart ns show ?thesis
        using basename_append_slash [of ?b dir] by (simp add: path_join_def)
    qed
  qed
qed

section \<open>Facts about the command\<close>

lemma list_opts_acc: "list_opts opt itms opts = opts @ concat (map (\<lambda>itm. [CHR ''-'' # opt, itm]) itms)"
  by (induction itms arbitrary: opts) auto

lemma warp_opts_loop_acc: "warp_opts_loop config cmd = cmd @ concat (map expand_option config)"
proof (induction config cmd rule: warp_opts_loop.induct)
  case (1 cmd)
  show ?case by simp
next
  case (2 opt itms rest cmd)
  then show ?case by (simp add: list_opts_acc)
next
  case (3 opt s rest cmd)
  then show ?case by simp
qed

lemma get_warp_command_nonempty: "get_warp_command config a b \<noteq> []"
  by (simp add: get_warp_command_def warp_opts_loop_acc)

lemma run_cmd_trace: "cmd \<noteq> [] \<Longrightarrow> snd (run_cmd os cmd w) = w @ [cmd]"
  by (auto simp: run_cmd_def split: list.splits proc_outcome.splits option.splits)

lemma warp_trace:
  "snd (warp os fname_in target_dir config w) =
   w @ [get_warp_command config fname_in (path_join target_dir (basename fname_in))]"
proof -
  let ?cmd = "get_warp_command config fname_in (path_join target_dir (basename fname_in))"
  have "snd (run_cmd os ?cmd w) = w @ [?cmd]"
    by (rule run_cmd_trace) (rule get_warp_command_nonempty)
  then show ?thesis
    by (auto simp: warp_def Let_def split: prod.splits sum.splits)
qed

section \<open>Facts about processing one message\<close>

lemma run_cmd_ok_iff:
  "(\<exists>msg w'. run_cmd os cmd w = (Inr (True, msg), w')) \<longleftrightarrow> cmd \<noteq> [] \<and> (\<exists>err el. os w cmd = Exited 0 err el)"
  by (auto simp: run_cmd_def split: list.splits proc_outcome.splits option.splits if_splits)

lemma warp_result:
  "warp os uri dir opts w = (Inr (Some p), w1) \<Longrightarrow> p = path_join dir (basename uri)"
  by (auto simp: warp_def Let_def split: prod.splits sum.splits if_splits)

lemma warp_ok_iff:
  "(\<exists>p w1. warp os uri dir opts w = (Inr (Some p), w1)) \<longleftrightarrow>
   (\<exists>err el. os w (get_warp_command opts uri (path_join dir (basename uri))) = Exited 0 err el)"
proof -
  let ?cmd = "get_warp_command opts uri (path_join dir (basename uri))"
  have "(\<exists>p w1. warp os uri dir opts w = (Inr (Some p), w1)) \<longleftrightarrow>
        (\<exists>msg w'. run_cmd os ?cmd w = (Inr (True, msg), w'))"
    by (auto simp: warp_def Let_def split: prod.splits sum.splits if_splits)
  also have "\<dots> \<longleftrightarrow> (\<exists>err el. os w ?cmd = Exited 0 err el)"
    by (simp only: run_cmd_ok_iff) (simp add: get_warp_command_nonempty)
  finally show ?thesis .
qed

lemma add_overviews_ok_iff:
  "(\<exists>w2. add_overviews os f (Some (x # xs)) w = (Inr True, w2)) \<longleftrightarrow>
   (\<exists>err el. os w ([''gdaladdo'', f] @ map str_int (x # xs)) = Exited 0 err el)"
proof -
  let ?cmd = "[''gdaladdo'', f] @ map str_int (x # xs)"
  have "(\<exists>w2. add_overviews os f (Some (x # xs)) w = (Inr True, w2)) \<longleftrightarrow>
        (\<exists>msg w'. run_cmd os ?cmd w = (Inr (True, msg), w'))"
    by (auto simp: add_overviews_def split: prod.splits sum.splits if_splits)
  also have "\<dots> \<longleftrightarrow> (\<exists>err el. os w ?cmd = Exited 0 err el)"
    by (simp only: run_cmd_ok_iff) simp
  finally show ?thesis .
qed

text \<open>The body of process_message once its four lookups have succeeded.\<close>

lemma process_message_found:
  assumes "dict_copy h a = (meta, h1)"
    and "cells h a ''uri'' = Some uri" and "cfg_target_dir config = Some dir"
    and "cfg_target_projection config = Some proj"
    and "map_of (cfg_projections config) proj = Some opts"
  shows "process_message os config a topic (h, w) =
     (case warp os uri dir opts w of
        (Inl e, w1) \<Rightarrow> (Inl e, h1, w1)
      | (Inr None, w1) \<Rightarrow> (Inr None, h1, w1)
      | (Inr (Some new_uri), w1) \<Rightarrow>
          (case add_overviews os new_uri (cfg_overviews config) w1 of
             (Inl e, w2) \<Rightarrow> (Inl e, h1, w2)
           | (Inr ok, w2) \<Rightarrow>
               if \<not> ok then (Inr None, h1, w2)
               else (Inr (Some \<lparr>subject = topic, mtype = ''file'', mdata = meta\<rparr>),
                     dict_set (dict_set h1 meta ''uri'' new_uri) meta ''uid'' (basename new_uri),
                     w2)))"
proof -
  from assms(1,2) have "cells h1 meta ''uri'' = Some uri"
    by (auto simp: dict_copy_def)
  with assms show ?thesis
    by (simp add: process_message_def Let_def)
qed

lemma process_message_missing:
  assumes "cells h a ''uri'' = None \<or> cfg_target_dir config = None
     \<or> cfg_target_projection config = None
     \<or> (\<exists>proj. cfg_target_projection config = Some proj \<and> map_of (cfg_projections config) proj = None)"
  shows "fst (process_message os config a topic (h, w)) = Inl KeyError"
  using assms by (auto simp: process_message_def dict_copy_def Let_def split: option.splits)

lemma process_message_frame:
  "b < top h \<Longrightarrow> cells (fst (snd (process_message os config a topic (h, w)))) b = cells h b"
  by (auto simp: process_message_def dict_copy_def dict_set_def Let_def
      split: option.splits prod.splits sum.splits)

lemma process_message_success:
  assumes "process_message os config a topic (h, w) = (Inr (Some m), h', w')"
  shows "\<exists>uri dir. cells h a ''uri'' = Some uri \<and> cfg_target_dir config = Some dir \<and>
      m = \<lparr>subject = topic, mtype = ''file'', mdata = top h\<rparr> \<and>
      cells h' = (cells h)(top h := (cells h a)(''uri'' \<mapsto> path_join dir (basename uri), ''uid'' \<mapsto> basename uri))"
proof -
  from assms have nk: "fst (process_message os config a topic (h, w)) \<noteq> Inl KeyError" by simp
  from nk process_message_missing [of h a config os topic w]
  have nm: "\<not> (cells h a ''uri'' = None \<or> cfg_target_dir config = None
       \<or> cfg_target_projection config = None
       \<or> (\<exists>proj. cfg_target_projection config = Some proj \<and> map_of (cfg_projections config) proj = None))"
    by blast
  then obtain uri dir proj where L3: "cells h a ''uri'' = Some uri" "cfg_target_dir config = Some dir"
      "cfg_target_projection config = Some proj"
    by auto
  with nm obtain opts where L4: "map_of (cfg_projections config) proj = Some opts"
    by auto
  obtain meta h1 where dc: "dict_copy h a = (meta, h1)" by (cases "dict_copy h a")
  note pm = process_message_found [OF dc L3 L4, of os topic w]
  from assms pm obtain new_uri w1 where wr: "warp os uri dir opts w = (Inr (Some new_uri), w1)"
    by (cases "warp os uri dir opts w") (auto split: sum.splits option.splits)
  then have nu: "new_uri = path_join dir (basename uri)" by (rule warp_result)
  from assms pm wr have res: "m = \<lparr>subject = topic, mtype = ''file'', mdata = meta\<rparr>"
    "h' = dict_set (dict_set h1 meta ''uri'' new_uri) meta ''uid'' (basename new_uri)"
    by (cases "add_overviews os new_uri (cfg_overviews config) w1"; auto split: sum.splits if_splits)+
  from dc have d: "meta = top h" "cells h1 = (cells h)(top h := cells h a)" by (auto simp: dict_copy_def)
  from res(2) d nu have "cells h' =
      (cells h)(top h := (cells h a)(''uri'' \<mapsto> path_join dir (basename uri), ''uid'' \<mapsto> basename uri))"
    by (simp add: dict_set_def basename_path_join)
  with L3 res(1) d(1) show ?thesis by simp
qed

lemma run_task_result:
  assumes "run_task os config topic data w = (Inr (d, pub_msg), w')"
  shows "d = data"
    and "pub_msg = Some m \<Longrightarrow>
      \<exists>uri dir. data ''uri'' = Some uri \<and> cfg_target_dir config = Some dir \<and>
        m = \<lparr>subject = topic, mtype = ''file'',
             mdata = data(''uri'' \<mapsto> path_join dir (basename uri), ''uid'' \<mapsto> basename uri)\<rparr>"
proof -
  let ?h0 = "\<lparr>cells = (\<lambda>a. Map.empty)(0 := data), top = 1\<rparr>"
  obtain r h1 w1 where pm: "process_message os config 0 topic (?h0, w) = (r, h1, w1)"
    by (cases "process_message os config 0 topic (?h0, w)")
  from assms pm obtain am where r: "r = Inr am"
    by (cases r) (auto simp: run_task_def process_message_worker_def)
  from assms pm r have d: "d = cells h1 0"
    and pmsg: "pub_msg = map_option (\<lambda>m. \<lparr>subject = subject m, mtype = mtype m, mdata = cells h1 (mdata m)\<rparr>) am"
    by (auto simp: run_task_def process_message_worker_def)
  from process_message_frame [of 0 ?h0 os config 0 topic w] pm have "cells h1 0 = data" by simp
  with d show "d = data" by simp
  assume "pub_msg = Some m"
  with pmsg obtain m0 where am: "am = Some m0"
    and m: "m = \<lparr>subject = subject m0, mtype = mtype m0, mdata = cells h1 (mdata m0)\<rparr>"
    by (cases am) auto
  from process_message_success [of os config 0 topic ?h0 w m0 h1 w1] pm r am
  obtain uri dir where "data ''uri'' = Some uri" "cfg_target_dir config = Some dir"
    "m0 = \<lparr>subject = topic, mtype = ''file'', mdata = 1\<rparr>"
    "cells h1 = ((\<lambda>a. Map.empty)(0 := data))(1 := data(''uri'' \<mapsto> path_join dir (basename uri), ''uid'' \<mapsto> basename uri))"
    by auto
  with m show "\<exists>uri dir. data ''uri'' = Some uri \<and> cfg_target_dir config = Some dir \<and>
        m = \<lparr>subject = topic, mtype = ''file'',
             mdata = data(''uri'' \<mapsto> path_join dir (basename uri), ''uid'' \<mapsto> basename uri)\<rparr>"
    by simp
qed

lemma run_task_wf: "run_task os config topic data w = (Inr r, w') \<Longrightarrow> wf_result r"
proof -
  assume a: "run_task os config topic data w = (Inr r, w')"
  obtain d pm where r: "r = (d, pm)" by (cases r)
  show "wf_result r"
  proof (cases pm)
    case None
    with r show ?thesis by (simp add: wf_result_def)
  next
    case (Some m)
    from a r have a': "run_task os config topic data w = (Inr (d, pm), w')" by simp
    from run_task_result(1) [OF a'] run_task_result(2) [OF a' Some] r Some
    show ?thesis by (auto simp: wf_result_def)
  qed
qed

text \<open>The definitions that evaluate the model on a concrete input.\<close>

lemmas eval_defs = process_message_def process_message_worker_def run_task_def publish_message_def
  scenario_config_def scenario_heap_def scenario_payload_def
  os_bad_projection_def os_ok_def dict_copy_def dict_set_def warp_def run_cmd_def
  get_warp_command_def basename_def path_join_def split_def isspace_def add_overviews_def
  str_int_def digits.simps Let_def

section \<open>Facts about the drain and the pool\<close>

lemma drain_Nil: "results s = [] \<Longrightarrow> drain s = (Inr (), s)"
  by (subst drain.simps) simp

lemma publish_message_wf:
  "wf_result (d, pm) \<Longrightarrow>
   publish_message pub d pm = (Inr (), pub @ (case pm of None \<Rightarrow> [] | Some m \<Rightarrow> [m]))"
  by (auto simp: wf_result_def publish_message_def split: option.splits)

lemma drain_Cons_wf:
  "results s = (d, pm) # rest \<Longrightarrow> wf_result (d, pm) \<Longrightarrow>
   drain s = drain (s\<lparr>results := rest, sent := sent s @ (case pm of None \<Rightarrow> [] | Some m \<Rightarrow> [m]),
                      drained := drained s @ [(d, pm)], queued_images := queued_images s - 1\<rparr>)"
  by (subst drain.simps) (simp add: publish_message_wf)

lemma drain_wf:
  "results s = rs \<Longrightarrow> list_all wf_result rs \<Longrightarrow>
   drain s = (Inr (), s\<lparr>results := [], sent := sent s @ List.map_filter snd rs,
                        drained := drained s @ rs,
                        queued_images := queued_images s - int (length rs)\<rparr>)"
proof (induction rs arbitrary: s)
  case Nil
  then show ?case by (simp add: drain_Nil List.map_filter_simps)
next
  case (Cons r rs)
  obtain d pm where r: "r = (d, pm)" by (cases r)
  let ?s = "s\<lparr>results := rs, sent := sent s @ (case pm of None \<Rightarrow> [] | Some m \<Rightarrow> [m]),
                      drained := drained s @ [(d, pm)], queued_images := queued_images s - 1\<rparr>"
  from Cons.prems r have "drain s = drain ?s" by (intro drain_Cons_wf) auto
  also from Cons.prems have "\<dots> = (Inr (), ?s\<lparr>results := [], sent := sent ?s @ List.map_filter snd rs,
                        drained := drained ?s @ rs,
                        queued_images := queued_images ?s - int (length rs)\<rparr>)"
    by (intro Cons.IH) auto
  finally show ?case using r by (cases pm) (simp_all add: List.map_filter_simps)
qed

lemma pool_finish_fields:
  "queued_images (pool_finish os config topic is s) = queued_images s
   \<and> submitted (pool_finish os config topic is s) = submitted s
   \<and> drained (pool_finish os config topic is s) = drained s
   \<and> keep_looping (pool_finish os config topic is s) = keep_looping s
   \<and> latest_message_time (pool_finish os config topic is s) = latest_message_time s
   \<and> time_since_last_msg (pool_finish os config topic is s) = time_since_last_msg s
   \<and> sent (pool_finish os config topic is s) = sent s"
  by (induction "is" arbitrary: s) (auto split: prod.splits sum.splits)

lemma pool_finish_results:
  "list_all wf_result (results s) \<Longrightarrow> list_all wf_result (results (pool_finish os config topic is s))"
  by (induction "is" arbitrary: s) (auto split: prod.splits sum.splits dest: run_task_wf)

lemma pool_finish_count:
  "length (results (pool_finish os config topic is s)) + length (pending (pool_finish os config topic is s))
   \<le> length (results s) + length (pending s)"
proof (induction "is" arbitrary: s)
  case Nil
  show ?case by simp
next
  case (Cons i rest)
  show ?case
  proof (cases "i < length (pending s)")
    case False
    with Cons.IH [of s] show ?thesis by simp
  next
    case True
    obtain r w where rt: "run_task os config topic (pending s ! i) (invoked s) = (r, w)"
      by (cases "run_task os config topic (pending s ! i) (invoked s)")
    show ?thesis
    proof (cases r)
      case (Inl e)
      with True rt Cons.IH [of "s\<lparr>pending := take i (pending s) @ drop (Suc i) (pending s), invoked := w\<rparr>"]
      show ?thesis by simp
    next
      case (Inr x)
      with True rt Cons.IH [of "s\<lparr>pending := take i (pending s) @ drop (Suc i) (pending s), invoked := w,
                  results := results s @ [x]\<rparr>"]
      show ?thesis by simp
    qed
  qed
qed

lemma pool_finish_no_pending:
  "pending s = [] \<Longrightarrow> pool_finish os config topic is s = s"
  by (induction "is" arbitrary: s) auto

section \<open>Facts about one iteration and the invariant\<close>

text \<open>The state after the deliveries and the drain of one iteration.\<close>

lemma deliver_fields:
  "queued_images (deliver os config topic ev s) = queued_images s
   \<and> submitted (deliver os config topic ev s) = submitted s
   \<and> drained (deliver os config topic ev s) = drained s
   \<and> keep_looping (deliver os config topic ev s) = (keep_looping s \<and> \<not> ev_sigterm ev)
   \<and> latest_message_time (deliver os config topic ev s) = latest_message_time s
   \<and> time_since_last_msg (deliver os config topic ev s) = time_since_last_msg s
   \<and> sent (deliver os config topic ev s) = sent s"
  by (simp add: deliver_def pool_finish_fields)

lemma deliver_results:
  "list_all wf_result (results s) \<Longrightarrow> list_all wf_result (results (deliver os config topic ev s))"
  by (simp add: deliver_def pool_finish_results)

lemma deliver_count:
  "length (results (deliver os config topic ev s)) + length (pending (deliver os config topic ev s))
   \<le> length (results s) + length (pending s)"
  using pool_finish_count [of os config topic "ev_finished ev" "if ev_sigterm ev then s\<lparr>keep_looping := False\<rparr> else s"]
  by (cases "ev_sigterm ev") (simp_all add: deliver_def)

lemma drain_deliver:
  assumes "list_all wf_result (results s)"
  shows "\<exists>s1. drain (deliver os config topic ev s) = (Inr (), s1)
     \<and> results s1 = []
     \<and> queued_images s1 = queued_images s - int (length (results (deliver os config topic ev s)))
     \<and> drained s1 = drained s @ results (deliver os config topic ev s)
     \<and> submitted s1 = submitted s
     \<and> pending s1 = pending (deliver os config topic ev s)
     \<and> keep_looping s1 = (keep_looping s \<and> \<not> ev_sigterm ev)
     \<and> latest_message_time s1 = latest_message_time s
     \<and> time_since_last_msg s1 = time_since_last_msg s"
proof -
  let ?d = "deliver os config topic ev s"
  from assms have "list_all wf_result (results ?d)" by (rule deliver_results)
  from drain_wf [OF refl this] show ?thesis
    by (simp add: deliver_fields)
qed

lemma measure_idle_fields:
  "results (measure_idle config ev s) = results s
   \<and> queued_images (measure_idle config ev s) = queued_images s
   \<and> keep_looping (measure_idle config ev s) = keep_looping s
   \<and> latest_message_time (measure_idle config ev s) = latest_message_time s
   \<and> submitted (measure_idle config ev s) = submitted s
   \<and> drained (measure_idle config ev s) = drained s
   \<and> pending (measure_idle config ev s) = pending s"
  by (simp add: measure_idle_def)

lemma loop_inv_measure_idle: "loop_inv (measure_idle config ev s) = loop_inv s"
  by (simp add: loop_inv_def measure_idle_fields)

lemma loop_inv_dispatch: "loop_inv s \<Longrightarrow> loop_inv (dispatch ev s)"
  by (auto simp: loop_inv_def dispatch_def split: option.splits)

lemma check_exit_state: "check_exit config s = Some out \<Longrightarrow> state_of out = s"
  by (auto simp: check_exit_def split: if_splits option.splits)

lemma check_exit_return: "check_exit config s = Some (Return r s') \<Longrightarrow> queued_images s' = 0"
  by (auto simp: check_exit_def split: if_splits option.splits)

lemma loop_body_inv:
  assumes "loop_inv s"
  shows "loop_inv (state_of (loop_body os config topic ev s))"
proof -
  from assms have wf: "list_all wf_result (results s)" by (simp add: loop_inv_def)
  from drain_deliver [OF wf, of os config topic ev] obtain s1 where
    d: "drain (deliver os config topic ev s) = (Inr (), s1)" and r: "results s1 = []"
    and q: "queued_images s1 = queued_images s - int (length (results (deliver os config topic ev s)))"
    and dr: "drained s1 = drained s @ results (deliver os config topic ev s)"
    and su: "submitted s1 = submitted s" and pe: "pending s1 = pending (deliver os config topic ev s)"
    by blast
  from assms deliver_count [of os config topic ev s] r q dr su pe have i1: "loop_inv s1"
    by (simp add: loop_inv_def)
  then have i2: "loop_inv (measure_idle config ev s1)" by (simp add: loop_inv_measure_idle)
  show ?thesis
  proof (cases "check_exit config (measure_idle config ev s1)")
    case None
    with d i2 show ?thesis by (simp add: loop_body_def loop_inv_dispatch)
  next
    case (Some out)
    with d i2 check_exit_state [OF Some] show ?thesis by (simp add: loop_body_def)
  qed
qed

lemma loop_body_return: "loop_body os config topic ev s = Return r s' \<Longrightarrow> queued_images s' = 0"
  by (auto simp: loop_body_def split: prod.splits sum.splits option.splits dest: check_exit_return)

lemma warper_events_inv:
  "loop_inv s \<Longrightarrow> loop_inv (state_of (warper_events os config topic evs s))"
proof (induction evs arbitrary: s)
  case Nil
  then show ?case by simp
next
  case (Cons ev evs)
  from loop_body_inv [OF Cons.prems, of os config topic ev] Cons.IH
  show ?case by (cases "loop_body os config topic ev s") auto
qed

lemma warper_events_return:
  "warper_events os config topic evs s = Return r s' \<Longrightarrow> queued_images s' = 0"
proof (induction evs arbitrary: s)
  case Nil
  then show ?case by simp
next
  case (Cons ev evs)
  then show ?case
    by (cases "loop_body os config topic ev s") (auto dest: loop_body_return)
qed

lemma enter_loop_inv: "pending s = [] \<Longrightarrow> loop_inv (enter_loop now s)"
  by (simp add: loop_inv_def enter_loop_def)

lemma loop_inv_idle: "loop_inv s \<Longrightarrow> queued_images s = 0 \<Longrightarrow> pending s = []"
  by (auto simp: loop_inv_def)

lemma main_loop_inv:
  "pending s = [] \<Longrightarrow> calls \<noteq> [] \<Longrightarrow> loop_inv (main_state (main_loop os config topic calls s))"
proof (induction calls arbitrary: s)
  case Nil
  then show ?case by simp
next
  case (Cons c calls)
  obtain now evs where c: "c = (now, evs)" by (cases c)
  let ?out = "warper_loop os config topic now evs s"
  from Cons.prems have inv: "loop_inv (state_of ?out)"
    by (simp add: warper_loop_def warper_events_inv enter_loop_inv)
  show ?case
  proof (cases ?out)
    case (Continue s')
    with c inv show ?thesis by simp
  next
    case (Raise e s')
    with c inv show ?thesis by simp
  next
    case (Return r s')
    then have q: "queued_images s' = 0" by (auto simp: warper_loop_def dest: warper_events_return)
    with inv Return have p: "pending s' = []" by (auto dest: loop_inv_idle)
    show ?thesis
    proof (cases "r = RetSIGTERM")
      case True
      with c Return inv show ?thesis by simp
    next
      case False
      show ?thesis
      proof (cases "calls = []")
        case True
        with c Return False inv show ?thesis by simp
      next
        case F: False
        with c Return False Cons.IH [OF p] show ?thesis by simp
      qed
    qed
  qed
qed

lemma dispatch_fields:
  "results (dispatch ev s) = results s \<and> keep_looping (dispatch ev s) = keep_looping s
   \<and> drained (dispatch ev s) = drained s \<and> sent (dispatch ev s) = sent s
   \<and> queued_images (dispatch ev s) = queued_images s + (if ev_msg ev = None then 0 else 1)
   \<and> submitted (dispatch ev s) = submitted s @ (case ev_msg ev of None \<Rightarrow> [] | Some d \<Rightarrow> [d])
   \<and> latest_message_time (dispatch ev s) =
       (case ev_msg ev of None \<Rightarrow> latest_message_time s | Some d \<Rightarrow> ev_now_recv ev)"
  by (simp add: dispatch_def split: option.splits)



text \<open>The definitions that evaluate the loop on a concrete input.\<close>

lemmas loop_eval_defs = loop_body_def deliver_def measure_idle_def check_exit_def dispatch_def
  truthy_def minutes_between_def enter_loop_def process_start_def one_outstanding_def
  tick_def recv_def sigterm_tick_def finish_tick_def drain.simps wf_result_def warper_loop_def

text \<open>
  Without a truthy \<open>restart_timeout\<close> the variable \<open>time_since_last_msg\<close> is never
  assigned, and line 134 reads it whenever no work is outstanding and no shutdown has been
  requested.
\<close>

lemma idle_without_timeout_raises:
  assumes "\<not> truthy (cfg_restart_timeout config)" and "time_since_last_msg s = None"
    and "keep_looping s" and "\<not> ev_sigterm ev" and "list_all wf_result (results s)"
    and "queued_images s = int (length (results (deliver os config topic ev s)))"
  shows "\<exists>s1. loop_body os config topic ev s = Raise UnboundLocalError s1"
proof -
  from drain_deliver [OF assms(5), of os config topic ev] obtain s1 where
    d: "drain (deliver os config topic ev s) = (Inr (), s1)"
    and k: "keep_looping s1 = (keep_looping s \<and> \<not> ev_sigterm ev)"
    and q: "queued_images s1 = queued_images s - int (length (results (deliver os config topic ev s)))"
    and t: "time_since_last_msg s1 = time_since_last_msg s"
    by blast
  from assms k q t have "check_exit config (measure_idle config ev s1) = Some (Raise UnboundLocalError s1)"
    by (simp add: check_exit_def measure_idle_def)
  with d show ?thesis by (simp add: loop_body_def)
qed

lemma first_event_without_timeout_raises:
  assumes "\<not> truthy (cfg_restart_timeout config)" and "pending s = []" and "\<not> ev_sigterm ev"
  shows "warper_loop os config topic now (ev # evs) s = Raise UnboundLocalError (enter_loop now s)"
proof -
  let ?s = "enter_loop now s"
  from assms(2) have p: "pending ?s = []" by (simp add: enter_loop_def)
  with assms(3) have "deliver os config topic ev ?s = ?s"
    by (simp add: deliver_def pool_finish_no_pending)
  moreover have "drain ?s = (Inr (), ?s)" by (rule drain_Nil) (simp add: enter_loop_def)
  moreover from assms(1) have "check_exit config (measure_idle config ev ?s) = Some (Raise UnboundLocalError ?s)"
    by (simp add: check_exit_def measure_idle_def enter_loop_def)
  ultimately have "loop_body os config topic ev ?s = Raise UnboundLocalError ?s"
    by (simp add: loop_body_def)
  then show ?thesis by (simp add: warper_loop_def)
qed

section \<open>Facts about the idle time and the restart\<close>

lemma check_exit_not_continue: "check_exit config s \<noteq> Some (Continue s')"
  by (auto simp: check_exit_def split: option.splits)

lemma loop_body_continue:
  assumes "loop_body os config topic ev s = Continue s'" and "list_all wf_result (results s)"
  shows "results s' = []
     \<and> latest_message_time s' =
         (case ev_msg ev of None \<Rightarrow> latest_message_time s | Some d \<Rightarrow> ev_now_recv ev)"
proof -
  from drain_deliver [OF assms(2), of os config topic ev] obtain s1 where
    d: "drain (deliver os config topic ev s) = (Inr (), s1)" and r: "results s1 = []"
    and l: "latest_message_time s1 = latest_message_time s"
    by blast
  from assms(1) d have "s' = dispatch ev (measure_idle config ev s1)"
    by (cases "check_exit config (measure_idle config ev s1)")
       (auto simp: loop_body_def check_exit_not_continue)
  with r l show ?thesis
    by (simp add: dispatch_fields measure_idle_fields split: option.splits)
qed

lemma warper_events_latest:
  "warper_events os config topic evs s = Continue s' \<Longrightarrow> list_all wf_result (results s) \<Longrightarrow>
   latest_message_time s' = last_real_event_time (latest_message_time s) evs
   \<and> list_all wf_result (results s')"
proof (induction evs arbitrary: s)
  case Nil
  then show ?case by simp
next
  case (Cons ev evs)
  from Cons.prems(1) obtain s1 where lb: "loop_body os config topic ev s = Continue s1"
    and rest: "warper_events os config topic evs s1 = Continue s'"
    by (cases "loop_body os config topic ev s") auto
  from loop_body_continue [OF lb Cons.prems(2)] have r: "results s1 = []"
    and l: "latest_message_time s1 =
         (case ev_msg ev of None \<Rightarrow> latest_message_time s | Some d \<Rightarrow> ev_now_recv ev)"
    by simp_all
  from r have "list_all wf_result (results s1)" by simp
  from Cons.IH [OF rest this] l show ?case by simp
qed

lemma warper_loop_latest:
  assumes "warper_loop os config topic now evs s0 = Continue s"
  shows "latest_message_time s = last_real_event_time now evs" and "list_all wf_result (results s)"
proof -
  have "list_all wf_result (results (enter_loop now s0))" by (simp add: enter_loop_def)
  from warper_events_latest [OF assms [unfolded warper_loop_def] this]
  show "latest_message_time s = last_real_event_time now evs" and "list_all wf_result (results s)"
    by (simp_all add: enter_loop_def)
qed

lemma warper_events_append:
  "warper_events os config topic evs s = Continue s1 \<Longrightarrow>
   warper_events os config topic (evs @ evs') s = warper_events os config topic evs' s1"
proof (induction evs arbitrary: s)
  case Nil
  then show ?case by simp
next
  case (Cons ev evs)
  then show ?case by (cases "loop_body os config topic ev s") auto
qed

lemma warper_events_single: "warper_events os config topic [ev] s = loop_body os config topic ev s"
  by (cases "loop_body os config topic ev s") auto

lemma outcome_continue: "returned out = None \<Longrightarrow> raised out = None \<Longrightarrow> out = Continue (state_of out)"
  by (cases out) auto

lemma loop_body_restart_iff:
  assumes "cfg_restart_timeout config = Some T" and "truthy (cfg_restart_timeout config)"
    and "list_all wf_result (results s)"
  shows "\<exists>s1. drain (deliver os config topic ev s) = (Inr (), s1)
      \<and> ((\<exists>s'. loop_body os config topic ev s = Return RetNone s') \<longleftrightarrow>
           queued_images s1 = 0 \<and> keep_looping s \<and> \<not> ev_sigterm ev
           \<and> T < minutes_between (latest_message_time s) (ev_now_check ev))
      \<and> (queued_images s1 \<noteq> 0 \<longrightarrow>
           loop_body os config topic ev s = Continue (dispatch ev (measure_idle config ev s1)))
      \<and> (\<forall>e s'. loop_body os config topic ev s \<noteq> Raise e s')"
proof -
  from drain_deliver [OF assms(3), of os config topic ev] obtain s1 where
    d: "drain (deliver os config topic ev s) = (Inr (), s1)"
    and k: "keep_looping s1 = (keep_looping s \<and> \<not> ev_sigterm ev)"
    and l: "latest_message_time s1 = latest_message_time s"
    by blast
  let ?s2 = "measure_idle config ev s1"
  let ?t = "minutes_between (latest_message_time s) (ev_now_check ev)"
  from assms(2) l have s2: "?s2 = s1\<lparr>time_since_last_msg := Some ?t\<rparr>"
    by (simp add: measure_idle_def)
  have ce: "check_exit config ?s2 =
      (if queued_images s1 = 0 then
         (if \<not> keep_looping s1 then Some (Return RetSIGTERM ?s2)
          else if T < ?t then Some (Return RetNone ?s2) else None)
       else None)"
    using assms(1) by (simp add: check_exit_def s2)
  from d have lb: "loop_body os config topic ev s =
      (case check_exit config ?s2 of Some out \<Rightarrow> out | None \<Rightarrow> Continue (dispatch ev ?s2))"
    by (simp add: loop_body_def)
  have a: "(\<exists>s'. loop_body os config topic ev s = Return RetNone s') \<longleftrightarrow>
           queued_images s1 = 0 \<and> keep_looping s \<and> \<not> ev_sigterm ev \<and> T < ?t"
    using k by (auto simp: lb ce)
  have b: "queued_images s1 \<noteq> 0 \<longrightarrow> loop_body os config topic ev s = Continue (dispatch ev ?s2)"
    by (simp add: lb ce)
  have c: "\<forall>e s'. loop_body os config topic ev s \<noteq> Raise e s'"
    by (simp add: lb ce)
  from d a b c show ?thesis by blast
qed

text \<open>
  A \<open>restart_timeout\<close> of 0 fails the test \<open>if restart_timeout:\<close> like an absent one, and
  the idle iteration raises in the same way.
\<close>

lemma zero_timeout_idle_tick_raises:
  "loop_body os_ok (scenario_config\<lparr>cfg_restart_timeout := Some 0\<rparr>) ''/warped'' (tick 1000000)
     (enter_loop 0 process_start) = Raise UnboundLocalError (enter_loop 0 process_start)"
  by (simp add: loop_eval_defs scenario_config_def)

section \<open>The derived reprojection command\<close>

text \<open>
  Claim C2. For every option mapping, input path and output directory, the command that
  \<open>_get_warp_command\<close> builds, and that \<open>warp\<close> runs, is the tool name, then for each option
  in order its expansion (one \<open>-option value\<close> pair per element of a list value, in list
  order; the dash-prefixed option once, followed by the whitespace-separated tokens, for a
  string value), then the input path and the output path, which is the output directory
  joined with the basename of the input path. The tokens of a string are its maximal runs
  of non-whitespace characters: none is empty, none contains whitespace, and together they
  are the non-whitespace characters of the string in order.
\<close>

theorem warp_command_structure:
  "get_warp_command config fname_in (path_join dir (basename fname_in)) =
     [''gdalwarp''] @ concat (map expand_option config) @ [fname_in, path_join dir (basename fname_in)]
   \<and> snd (warp os fname_in dir config w) =
     w @ [[''gdalwarp''] @ concat (map expand_option config) @ [fname_in, path_join dir (basename fname_in)]]
   \<and> concat (split s) = filter (\<lambda>c. \<not> isspace c) s
   \<and> list_all (\<lambda>t. t \<noteq> [] \<and> list_all (\<lambda>c. \<not> isspace c) t) (split s)"
proof -
  have cmd: "get_warp_command config fname_in out =
      [''gdalwarp''] @ concat (map expand_option config) @ [fname_in, out]" for out
    by (simp add: get_warp_command_def warp_opts_loop_acc)
  show ?thesis
    using cmd [of "path_join dir (basename fname_in)"] warp_trace [of os fname_in dir config w]
      split_concat [of s] split_tokens [of s]
    by simp
qed

theorem warp_command_structure_witness:
  "get_warp_command
     [(''t_srs'', OptStr ''EPSG:4326''), (''co'', OptList [''TILED=YES'', ''COMPRESS=LZW'']),
      (''te'', OptStr '' -180 -90  180 90 '')]
     ''/in/a.tif'' (path_join ''/out'' (basename ''/in/a.tif'')) =
   [''gdalwarp'', ''-t_srs'', ''EPSG:4326'', ''-co'', ''TILED=YES'', ''-co'', ''COMPRESS=LZW'',
    ''-te'', ''-180'', ''-90'', ''180'', ''90'', ''/in/a.tif'', ''/out/a.tif'']
   \<and> snd (warp os_ok ''/in/a.tif'' ''/out'' [(''t_srs'', OptStr ''EPSG:4326'')] []) =
   [[''gdalwarp'', ''-t_srs'', ''EPSG:4326'', ''/in/a.tif'', ''/out/a.tif'']]"
  using warp_command_structure [of
      "[(''t_srs'', OptStr ''EPSG:4326''), (''co'', OptList [''TILED=YES'', ''COMPRESS=LZW'']),
        (''te'', OptStr '' -180 -90  180 90 '')]" "''/in/a.tif''" "''/out''" os_ok "[]" "[]"]
    warp_command_structure [of "[(''t_srs'', OptStr ''EPSG:4326'')]" "''/in/a.tif''" "''/out''" os_ok "[]" "[]"]
  by (simp add: split_def isspace_def basename_def path_join_def)

section \<open>The command runner\<close>

text \<open>
  Claim C7, as stated, fails: with an empty argument vector \<open>_run_cmd\<close> raises
  \<open>IndexError\<close> whatever the operating system does.
\<close>

theorem run_cmd_empty_counterexample:
  "run_cmd os_ok [] [] = (Inl IndexError, [])"
  by (simp add: run_cmd_def)

text \<open>
  The other two ways in which \<open>_run_cmd\<close> raises: \<open>subprocess.run\<close> raises an
  \<open>OSError\<close> that is not \<open>FileNotFoundError\<close>; the process exits with a non-zero code
  and its standard error is not valid UTF-8.
\<close>

lemma run_cmd_spawn_error:
  "os w (prog # args) = SpawnError \<Longrightarrow> fst (run_cmd os (prog # args) w) = Inl OSError"
  by (simp add: run_cmd_def)

lemma run_cmd_undecodable:
  "os w (prog # args) = Exited rc None el \<Longrightarrow> rc \<noteq> 0 \<Longrightarrow>
   fst (run_cmd os (prog # args) w) = Inl UnicodeDecodeError"
  by (simp add: run_cmd_def)

text \<open>
  Claim C7, amended. For every non-empty argument vector, when starting the process raises
  nothing but \<open>FileNotFoundError\<close> and the standard error of a process that exits with a
  non-zero code is valid UTF-8, \<open>_run_cmd\<close> returns a pair: failure and a message naming
  the program when the executable is not found, failure and the standard-error text when
  the exit code is not zero, success and a message reporting the elapsed seconds when it
  is zero. The command is recorded as run in each case.
\<close>

theorem run_cmd_returns:
  assumes "cmd = prog # args"
    and "os w cmd \<noteq> SpawnError"
    and "\<forall>rc el. rc \<noteq> 0 \<longrightarrow> os w cmd \<noteq> Exited rc None el"
  shows "\<exists>ok msg. run_cmd os cmd w = (Inr (ok, msg), w @ [cmd])
        \<and> (os w cmd = NotFound \<longrightarrow>
             \<not> ok \<and> msg = ''Command '' @ [CHR 0x27] @ prog @ [CHR 0x27] @ '' not found'')
        \<and> (\<forall>rc txt el. os w cmd = Exited rc (Some txt) el \<and> rc \<noteq> 0 \<longrightarrow> \<not> ok \<and> msg = txt)
        \<and> (\<forall>err el. os w cmd = Exited 0 err el \<longrightarrow>
             ok \<and> msg = ''File reprojected in '' @ el @ '' seconds.'')"
proof (cases "os w cmd")
  case NotFound
  with assms show ?thesis by (auto simp: run_cmd_def)
next
  case SpawnError
  with assms show ?thesis by simp
next
  case (Exited rc err el)
  show ?thesis
  proof (cases "rc = 0")
    case True
    with Exited assms show ?thesis by (auto simp: run_cmd_def)
  next
    case False
    with Exited assms obtain e where "err = Some e" by (cases err) auto
    with False Exited assms show ?thesis by (auto simp: run_cmd_def)
  qed
qed

theorem run_cmd_returns_witness:
  "run_cmd os_bad_projection [''gdalwarp'', ''a'', ''b''] [] =
     (Inr (False, ''bad projection''), [[''gdalwarp'', ''a'', ''b'']])
   \<and> run_cmd os_ok [''gdalwarp'', ''a'', ''b''] [] =
     (Inr (True, ''File reprojected in 0.1 seconds.''), [[''gdalwarp'', ''a'', ''b'']])
   \<and> run_cmd (\<lambda>w cmd. NotFound) [''gdalwarp'', ''a'', ''b''] [] =
     (Inr (False, ''Command '' @ [CHR 0x27] @ ''gdalwarp'' @ [CHR 0x27] @ '' not found''), [[''gdalwarp'', ''a'', ''b'']])"
  using run_cmd_returns [of "[''gdalwarp'', ''a'', ''b'']" "''gdalwarp''" "[''a'', ''b'']" os_bad_projection "[]"]
    run_cmd_returns [of "[''gdalwarp'', ''a'', ''b'']" "''gdalwarp''" "[''a'', ''b'']" os_ok "[]"]
    run_cmd_returns [of "[''gdalwarp'', ''a'', ''b'']" "''gdalwarp''" "[''a'', ''b'']" "\<lambda>w cmd. NotFound" "[]"]
  by (auto simp: os_bad_projection_def os_ok_def)

section \<open>Messages are produced exactly by full success\<close>



section \<open>A configuration without overviews\<close>

text \<open>
  Claim C10. With no \<open>overviews\<close> key in the configuration, \<open>_process_message\<close> returns
  what it returns with an empty overview list; \<open>add_overviews\<close> succeeds without running
  a command; and whenever the reprojection succeeds a message is returned, the
  reprojection command being the only command run.
\<close>

theorem missing_overviews_as_empty:
  "process_message os (config\<lparr>cfg_overviews := None\<rparr>) a topic st =
     process_message os (config\<lparr>cfg_overviews := Some []\<rparr>) a topic st
   \<and> add_overviews os f None w' = (Inr True, w')
   \<and> add_overviews os f None w' = add_overviews os f (Some []) w'
   \<and> (\<forall>uri dir proj opts new_uri w1.
         cfg_overviews config = None \<and>
         cells h a ''uri'' = Some uri \<and> cfg_target_dir config = Some dir \<and>
         cfg_target_projection config = Some proj \<and>
         map_of (cfg_projections config) proj = Some opts \<and>
         warp os uri dir opts w = (Inr (Some new_uri), w1) \<longrightarrow>
         fst (process_message os config a topic (h, w)) =
           Inr (Some \<lparr>subject = topic, mtype = ''file'', mdata = top h\<rparr>) \<and>
         snd (snd (process_message os config a topic (h, w))) = w1)"
  (is "?same \<and> ?none \<and> ?eq \<and> ?msg")
proof -
  have s: ?same
    by (simp add: process_message_def add_overviews_def Let_def
        cong: option.case_cong prod.case_cong sum.case_cong)
  have n: ?none and e: ?eq
    by (simp_all add: add_overviews_def)
  have m: ?msg
  proof (intro allI impI)
    fix uri dir proj opts new_uri w1
    assume A: "cfg_overviews config = None \<and>
         cells h a ''uri'' = Some uri \<and> cfg_target_dir config = Some dir \<and>
         cfg_target_projection config = Some proj \<and>
         map_of (cfg_projections config) proj = Some opts \<and>
         warp os uri dir opts w = (Inr (Some new_uri), w1)"
    obtain meta h1 where dc: "dict_copy h a = (meta, h1)" by (cases "dict_copy h a")
    then have meta: "meta = top h" by (simp add: dict_copy_def)
    from A dc have "process_message os config a topic (h, w) =
        (Inr (Some \<lparr>subject = topic, mtype = ''file'', mdata = meta\<rparr>),
         dict_set (dict_set h1 meta ''uri'' new_uri) meta ''uid'' (basename new_uri), w1)"
      by (subst process_message_found [of h a meta h1 uri config dir proj opts])
         (simp_all add: add_overviews_def)
    with meta show "fst (process_message os config a topic (h, w)) =
           Inr (Some \<lparr>subject = topic, mtype = ''file'', mdata = top h\<rparr>) \<and>
         snd (snd (process_message os config a topic (h, w))) = w1" by simp
  qed
  from s n e m show ?thesis by (intro conjI)
qed

theorem missing_overviews_as_empty_witness:
  "process_message os_ok (scenario_config\<lparr>cfg_overviews := None\<rparr>) 0 ''/warped'' (scenario_heap, []) =
     process_message os_ok (scenario_config\<lparr>cfg_overviews := Some []\<rparr>) 0 ''/warped'' (scenario_heap, [])
   \<and> fst (process_message os_ok (scenario_config\<lparr>cfg_overviews := None\<rparr>) 0 ''/warped'' (scenario_heap, [])) =
       Inr (Some \<lparr>subject = ''/warped'', mtype = ''file'', mdata = 1\<rparr>)
   \<and> snd (snd (process_message os_ok (scenario_config\<lparr>cfg_overviews := None\<rparr>) 0 ''/warped'' (scenario_heap, []))) =
       [[''gdalwarp'', ''-t_srs'', ''EPSG:4326'', ''/in/a.tif'', ''/out/a.tif'']]"
  using missing_overviews_as_empty [of os_ok "scenario_config\<lparr>cfg_overviews := None\<rparr>" 0 "''/warped''"
      "(scenario_heap, [])" "''f''" "[]" scenario_heap "[]"]
  by (simp add: eval_defs)

section \<open>The published payload\<close>

text \<open>
  Claim C8. When a task of the pool returns a result, the payload in the result is the
  inbound payload, unchanged. \<open>_process_message\<close> changes no dict that existed before the
  call: it assigns only to its copy. A result without message publishes nothing. A result
  with a message carries the inbound payload with \<open>uri\<close> set to the output location
  (the target directory joined with the basename of the inbound \<open>uri\<close>) and \<open>uid\<close> set
  to its basename, every other field as in the inbound payload; the message has the
  publishing topic and the type \<open>file\<close>, and \<open>_publish_message\<close> sends exactly it.
\<close>

theorem published_payload:
  assumes "run_task os config topic data w = (Inr (d, pub_msg), w')"
  shows "d = data
     \<and> (\<forall>b. b < top h \<longrightarrow> cells (fst (snd (process_message os config a topic (h, w0)))) b = cells h b)
     \<and> publish_message pub d' None = (Inr (), pub)
     \<and> (\<forall>m. pub_msg = Some m \<longrightarrow>
          (\<exists>uri dir. data ''uri'' = Some uri \<and> cfg_target_dir config = Some dir \<and>
             mdata m = data(''uri'' \<mapsto> path_join dir (basename uri), ''uid'' \<mapsto> basename uri)) \<and>
          (\<forall>k. k \<noteq> ''uri'' \<and> k \<noteq> ''uid'' \<longrightarrow> mdata m k = data k) \<and>
          subject m = topic \<and> mtype m = ''file'' \<and>
          publish_message pub d pub_msg = (Inr (), pub @ [m]))"
proof (intro conjI allI impI)
  show "d = data" using assms by (rule run_task_result(1))
  show "publish_message pub d' None = (Inr (), pub)" by (simp add: publish_message_def)
next
  fix b assume "b < top h"
  then show "cells (fst (snd (process_message os config a topic (h, w0)))) b = cells h b"
    by (rule process_message_frame)
next
  fix m assume s: "pub_msg = Some m"
  from run_task_result(2) [OF assms s] obtain uri dir where
    u: "data ''uri'' = Some uri" "cfg_target_dir config = Some dir"
    and m: "m = \<lparr>subject = topic, mtype = ''file'',
             mdata = data(''uri'' \<mapsto> path_join dir (basename uri), ''uid'' \<mapsto> basename uri)\<rparr>"
    by blast
  from u m show "\<exists>uri dir. data ''uri'' = Some uri \<and> cfg_target_dir config = Some dir \<and>
             mdata m = data(''uri'' \<mapsto> path_join dir (basename uri), ''uid'' \<mapsto> basename uri)"
    by simp
  from m show "subject m = topic" "mtype m = ''file''" by simp_all
  from run_task_result(1) [OF assms] u m s
  show "publish_message pub d pub_msg = (Inr (), pub @ [m])"
    by (simp add: publish_message_def)
  fix k assume "k \<noteq> ''uri'' \<and> k \<noteq> ''uid''"
  with m show "mdata m k = data k" by simp
qed

theorem published_payload_witness:
  "run_task os_ok scenario_config ''/warped'' scenario_payload [] =
     (Inr (scenario_payload,
           Some \<lparr>subject = ''/warped'', mtype = ''file'',
                 mdata = [''uri'' \<mapsto> ''/out/a.tif'', ''sensor'' \<mapsto> ''seviri'', ''uid'' \<mapsto> ''a.tif'']\<rparr>),
      [[''gdalwarp'', ''-t_srs'', ''EPSG:4326'', ''/in/a.tif'', ''/out/a.tif''],
       [''gdaladdo'', ''/out/a.tif'', ''2'', ''4'', ''8'']])"
  using published_payload [of os_ok scenario_config "''/warped''" scenario_payload "[]" scenario_payload
      "Some \<lparr>subject = ''/warped'', mtype = ''file'',
                 mdata = [''uri'' \<mapsto> ''/out/a.tif'', ''sensor'' \<mapsto> ''seviri'', ''uid'' \<mapsto> ''a.tif'']\<rparr>"
      "[[''gdalwarp'', ''-t_srs'', ''EPSG:4326'', ''/in/a.tif'', ''/out/a.tif''],
       [''gdaladdo'', ''/out/a.tif'', ''2'', ''4'', ''8'']]" scenario_heap 0 "[]" "[]" scenario_payload]
  by (auto simp: eval_defs fun_eq_iff)

section \<open>Draining twice\<close>

text \<open>
  Claim C9. For every buffer of results that the pool has delivered (each result is well
  formed, which \<open>run_task_wf\<close> and \<open>warper_events_inv\<close> show for every reachable state), one
  drain returns normally, empties the buffer, forwards every buffered result in order
  (each is recorded as drained, each message is sent) and lowers the counter by the number
  of results; a second drain with no completion in between forwards nothing: it returns
  the state unchanged.
\<close>

theorem drain_idempotent:
  assumes "list_all wf_result (results s)"
  shows "\<exists>s'. drain s = (Inr (), s') \<and> results s' = []
      \<and> drained s' = drained s @ results s
      \<and> sent s' = sent s @ List.map_filter snd (results s)
      \<and> queued_images s' = queued_images s - int (length (results s))
      \<and> drain s' = (Inr (), s')"
proof -
  let ?s' = "s\<lparr>results := [], sent := sent s @ List.map_filter snd (results s),
                drained := drained s @ results s,
                queued_images := queued_images s - int (length (results s))\<rparr>"
  from assms have "drain s = (Inr (), ?s')" by (intro drain_wf) simp_all
  moreover have "drain ?s' = (Inr (), ?s')" by (rule drain_Nil) simp
  ultimately show ?thesis by simp
qed

theorem drain_idempotent_witness:
  "list_all wf_result (results two_results)
   \<and> (\<exists>s'. drain two_results = (Inr (), s') \<and> results s' = []
        \<and> drained s' = results two_results
        \<and> sent s' = [\<lparr>subject = ''/warped'', mtype = ''file'', mdata = scenario_payload\<rparr>]
        \<and> queued_images s' = 0
        \<and> drain s' = (Inr (), s'))"
  using drain_idempotent [of two_results]
  by (simp add: two_results_def process_start_def wf_result_def scenario_payload_def List.map_filter_simps)

section \<open>Shutdown after the termination signal\<close>



section \<open>Restart after the idle timeout\<close>

text \<open>
  Claim C5, as stated, fails: the idle time is not measured from the last event with a
  payload, but from \<open>latest_message_time\<close>, which every call of \<open>_warper_loop\<close> sets to
  its time of entry (line 119). With a timeout of 5 minutes, the first call receives its
  only message at 10 microseconds and returns the restart signal at the tick at 6 minutes.
  The second call, entered at 6 minutes, goes on at the ticks at 7 and at 10 minutes: the
  counter is 0, no shutdown has been requested, the last event with a payload is more
  than 5 minutes old, and the loop does not return.
\<close>

theorem restart_since_last_event_counterexample:
  "returned first_call = Some RetNone
   \<and> length (submitted (state_of first_call)) = 1
   \<and> latest_message_time (state_of first_call) = 10
   \<and> returned second_call = None \<and> raised second_call = None
   \<and> queued_images (state_of second_call) = 0
   \<and> keep_looping (state_of second_call)
   \<and> submitted (state_of second_call) = []
   \<and> cfg_restart_timeout scenario_config = Some 5
   \<and> 5 < minutes_between 10 600000000"
  by (simp add: first_call_def second_call_def loop_eval_defs eval_defs)

text \<open>
  Claim C5, amended. Let a \<open>restart_timeout\<close> of \<open>T\<close> minutes, other than zero, be
  configured, and let the current call of the loop, entered at time \<open>now\<close>, have received
  the events \<open>evs\<close> and be waiting for the next one. Then the next iteration never raises,
  and it returns \<open>None\<close>, the restart signal, exactly when the counter is 0 after the
  drain, no shutdown has been requested and more than \<open>T\<close> minutes lie between
  \<open>last_real_event_time now evs\<close> and the clock: the time of the most recent event with a
  payload that this call has received, or the time of entry of this call when it has
  received none. While the counter is not 0 the iteration goes on whatever the clock
  reads. When the loop returns the restart signal, \<open>main\<close> calls the loop again.
\<close>

theorem restart_exactly_when_idle_timeout:
  assumes "cfg_restart_timeout config = Some T" and "truthy (cfg_restart_timeout config)"
    and "warper_loop os config topic now evs s0 = Continue s"
  shows "warper_loop os config topic now (evs @ [ev]) s0 = loop_body os config topic ev s
    \<and> latest_message_time s = last_real_event_time now evs
    \<and> (\<exists>s1. drain (deliver os config topic ev s) = (Inr (), s1)
        \<and> ((\<exists>s'. loop_body os config topic ev s = Return RetNone s') \<longleftrightarrow>
             queued_images s1 = 0 \<and> keep_looping s \<and> \<not> ev_sigterm ev
             \<and> T < minutes_between (last_real_event_time now evs) (ev_now_check ev))
        \<and> (queued_images s1 \<noteq> 0 \<longrightarrow>
             loop_body os config topic ev s = Continue (dispatch ev (measure_idle config ev s1))))
    \<and> (\<forall>e s'. loop_body os config topic ev s \<noteq> Raise e s')
    \<and> (\<forall>s' calls. loop_body os config topic ev s = Return RetNone s' \<longrightarrow>
          main_loop os config topic ((now, evs @ [ev]) # calls) s0 = main_loop os config topic calls s')"
proof -
  from assms(3) have "warper_events os config topic (evs @ [ev]) (enter_loop now s0) =
      warper_events os config topic [ev] s"
    unfolding warper_loop_def by (rule warper_events_append)
  then have run: "warper_loop os config topic now (evs @ [ev]) s0 = loop_body os config topic ev s"
    by (simp only: warper_loop_def warper_events_single)
  note lat = warper_loop_latest(1) [OF assms(3)]
  note wf = warper_loop_latest(2) [OF assms(3)]
  from loop_body_restart_iff [OF assms(1,2) wf, of os topic ev] lat
  have step: "\<exists>s1. drain (deliver os config topic ev s) = (Inr (), s1)
        \<and> ((\<exists>s'. loop_body os config topic ev s = Return RetNone s') \<longleftrightarrow>
             queued_images s1 = 0 \<and> keep_looping s \<and> \<not> ev_sigterm ev
             \<and> T < minutes_between (last_real_event_time now evs) (ev_now_check ev))
        \<and> (queued_images s1 \<noteq> 0 \<longrightarrow>
             loop_body os config topic ev s = Continue (dispatch ev (measure_idle config ev s1)))"
    and nr: "\<forall>e s'. loop_body os config topic ev s \<noteq> Raise e s'"
    by auto
  have m: "\<forall>s' calls. loop_body os config topic ev s = Return RetNone s' \<longrightarrow>
          main_loop os config topic ((now, evs @ [ev]) # calls) s0 = main_loop os config topic calls s'"
    using run by simp
  from run lat step nr m show ?thesis by (intro conjI)
qed

theorem restart_exactly_when_idle_timeout_witness:
  "returned (loop_body os_ok scenario_config ''/warped'' (tick 360000000) served_once) = Some RetNone
   \<and> returned (loop_body os_ok scenario_config ''/warped'' (tick 300000000) served_once) = None
   \<and> raised (loop_body os_ok scenario_config ''/warped'' (tick 300000000) served_once) = None
   \<and> returned (loop_body os_ok scenario_config ''/warped'' (tick 360000000) one_outstanding) = None
   \<and> last_real_event_time 0 [recv scenario_payload 10, finish_tick [0] 20] = 10
   \<and> length (submitted served_once) = 1"
proof -
  let ?evs = "[recv scenario_payload 10, finish_tick [0] 20]"
  let ?run = "warper_loop os_ok scenario_config ''/warped'' 0 ?evs process_start"
  let ?ev = "tick 360000000"
  have h: "cfg_restart_timeout scenario_config = Some 5" "truthy (cfg_restart_timeout scenario_config)"
    by (simp_all add: scenario_config_def truthy_def)
  have "returned ?run = None" "raised ?run = None"
    by (simp_all add: loop_eval_defs eval_defs)
  then have "?run = Continue served_once"
    unfolding served_once_def by (rule outcome_continue)
  from restart_exactly_when_idle_timeout [OF h this, of ?ev]
  obtain s1 where d: "drain (deliver os_ok scenario_config ''/warped'' ?ev served_once) = (Inr (), s1)"
    and r: "(\<exists>s'. loop_body os_ok scenario_config ''/warped'' ?ev served_once = Return RetNone s') \<longleftrightarrow>
           queued_images s1 = 0 \<and> keep_looping served_once \<and> \<not> ev_sigterm ?ev
           \<and> 5 < minutes_between (last_real_event_time 0 ?evs) (ev_now_check ?ev)"
    by blast
  have q: "queued_images (snd (drain (deliver os_ok scenario_config ''/warped'' ?ev served_once))) = 0"
    and k: "keep_looping served_once" and n: "length (submitted served_once) = 1"
    by (simp_all add: served_once_def loop_eval_defs eval_defs)
  have l: "last_real_event_time 0 ?evs = 10"
    by (simp add: recv_def finish_tick_def)
  from d q have "queued_images s1 = 0" by simp
  with r k l have "\<exists>s'. loop_body os_ok scenario_config ''/warped'' ?ev served_once = Return RetNone s'"
    by (simp add: tick_def minutes_between_def)
  then have a: "returned (loop_body os_ok scenario_config ''/warped'' ?ev served_once) = Some RetNone"
    by auto
  have b: "returned (loop_body os_ok scenario_config ''/warped'' (tick 300000000) served_once) = None"
    "raised (loop_body os_ok scenario_config ''/warped'' (tick 300000000) served_once) = None"
    by (simp_all add: served_once_def loop_eval_defs eval_defs)
  have c: "returned (loop_body os_ok scenario_config ''/warped'' (tick 360000000) one_outstanding) = None"
    by (simp add: loop_eval_defs scenario_config_def)
  from a b c l n show ?thesis by (intro conjI)
qed

section \<open>The outstanding-work counter\<close>

text \<open>
  Claim C6. In every state that a call of the loop reaches from a process whose pool is
  idle, and in every state that \<open>main\<close> reaches, \<open>queued_images\<close> is the number of
  payloads handed to the pool minus the number of results popped from the buffer, and it
  is not negative. A submission adds exactly 1 to it, a tick adds nothing, and a drain
  subtracts exactly 1 for each result it pops.
\<close>

theorem outstanding_count_invariant:
  assumes "pending s = []"
  shows "queued_images (state_of (warper_loop os config topic now evs s)) =
           int (length (submitted (state_of (warper_loop os config topic now evs s))))
           - int (length (drained (state_of (warper_loop os config topic now evs s))))
     \<and> 0 \<le> queued_images (state_of (warper_loop os config topic now evs s))
     \<and> (\<forall>calls. calls \<noteq> [] \<longrightarrow>
          queued_images (main_state (main_loop os config topic calls s)) =
            int (length (submitted (main_state (main_loop os config topic calls s))))
            - int (length (drained (main_state (main_loop os config topic calls s))))
          \<and> 0 \<le> queued_images (main_state (main_loop os config topic calls s)))
     \<and> queued_images (dispatch ev s1) = queued_images s1 + (if ev_msg ev = None then 0 else 1)
     \<and> length (submitted (dispatch ev s1)) = length (submitted s1) + (if ev_msg ev = None then 0 else 1)
     \<and> (list_all wf_result (results s1) \<longrightarrow>
          queued_images (snd (drain s1)) = queued_images s1 - int (length (results s1))
          \<and> length (drained (snd (drain s1))) = length (drained s1) + length (results s1))"
proof -
  have pos: "loop_inv x \<Longrightarrow>
      queued_images x = int (length (submitted x)) - int (length (drained x)) \<and> 0 \<le> queued_images x" for x
    by (auto simp: loop_inv_def)
  from assms have "loop_inv (state_of (warper_loop os config topic now evs s))"
    by (simp add: warper_loop_def warper_events_inv enter_loop_inv)
  note a = pos [OF this]
  have b: "\<forall>calls. calls \<noteq> [] \<longrightarrow>
          queued_images (main_state (main_loop os config topic calls s)) =
            int (length (submitted (main_state (main_loop os config topic calls s))))
            - int (length (drained (main_state (main_loop os config topic calls s))))
          \<and> 0 \<le> queued_images (main_state (main_loop os config topic calls s))"
    using assms by (auto dest!: main_loop_inv [of s _ os config topic] pos)
  have c: "queued_images (dispatch ev s1) = queued_images s1 + (if ev_msg ev = None then 0 else 1)"
    "length (submitted (dispatch ev s1)) = length (submitted s1) + (if ev_msg ev = None then 0 else 1)"
    by (auto simp: dispatch_fields split: option.splits)
  have d: "list_all wf_result (results s1) \<longrightarrow>
          queued_images (snd (drain s1)) = queued_images s1 - int (length (results s1))
          \<and> length (drained (snd (drain s1))) = length (drained s1) + length (results s1)"
    by (auto simp: drain_wf [OF refl])
  from a b c d show ?thesis by blast
qed

theorem outstanding_count_invariant_witness:
  "queued_images (state_of (warper_loop os_ok scenario_config ''/warped'' 0
      [recv scenario_payload 10, recv scenario_payload 20, finish_tick [1] 30, tick 40] process_start)) = 1
   \<and> length (submitted (state_of (warper_loop os_ok scenario_config ''/warped'' 0
      [recv scenario_payload 10, recv scenario_payload 20, finish_tick [1] 30, tick 40] process_start))) = 2
   \<and> length (drained (state_of (warper_loop os_ok scenario_config ''/warped'' 0
      [recv scenario_payload 10, recv scenario_payload 20, finish_tick [1] 30, tick 40] process_start))) = 1"
  using outstanding_count_invariant [of process_start os_ok scenario_config "''/warped''" 0
      "[recv scenario_payload 10, recv scenario_payload 20, finish_tick [1] 30, tick 40]"
      "tick 0" process_start]
  by (simp add: loop_eval_defs eval_defs)

section \<open>An idle loop without restart timeout\<close>

text \<open>
  Claim C1 says that an iteration with the counter at 0, no shutdown requested and no
  \<open>restart_timeout\<close> configured goes on to the next event. The code raises
  \<open>UnboundLocalError\<close> there: here at the first tick of a loop whose configuration has no
  \<open>restart_timeout\<close>.
\<close>

theorem no_timeout_idle_tick_raises:
  "loop_body os_ok (scenario_config\<lparr>cfg_restart_timeout := None\<rparr>) ''/warped'' (tick 1000000)
     (enter_loop 0 process_start) = Raise UnboundLocalError (enter_loop 0 process_start)"
  by (simp add: loop_eval_defs scenario_config_def)

end
